theory Spec2Isabelle
  imports Main "HOL-Library.Char_ord" "HOL-Library.List_Lexorder" "HOL-Library.Multiset"
begin

section \<open>The \<open>config\<close> command (package cmd)\<close>

subsection \<open>Organisation lookup\<close>

text \<open>
  The struct \<^verbatim>\<open>CollaborationResult\<close> with its five string fields, under the
  names the source gives them.
\<close>

record CollaborationResult =
  VcsTye :: string
  OrgSlug :: string
  OrgName :: string
  OrgId :: string
  AvatarUrl :: string

text \<open>
  \<^verbatim>\<open>GetOrgIdFromSlug\<close>: a \<^verbatim>\<open>for ... range\<close> loop over the slice that returns
  from inside the loop at the first element whose slug is the one asked for, and the
  empty string after the loop.
\<close>

fun GetOrgIdFromSlug :: "string \<Rightarrow> CollaborationResult list \<Rightarrow> string" where
  "GetOrgIdFromSlug slug [] = ''''"
| "GetOrgIdFromSlug slug (v # collaborations) =
     (if OrgSlug v = slug then OrgId v else GetOrgIdFromSlug slug collaborations)"

subsection \<open>The path \<open>validate\<close> operates on\<close>

text \<open>The constant \<^verbatim>\<open>local.DefaultConfigPath\<close>.\<close>

definition DefaultConfigPath :: string where
  "DefaultConfigPath = ''.circleci/config.yml''"

text \<open>
  The first statements of \<^verbatim>\<open>validateConfig\<close>, which choose the path: the package
  variable \<^verbatim>\<open>configPath\<close> (bound to the hidden \<^verbatim>\<open>--config\<close> flag) and the
  positional arguments \<^verbatim>\<open>opts.args\<close> are the inputs; the three assignments to
  \<^verbatim>\<open>path\<close> happen in the source's order.
\<close>

definition validateConfig_path :: "string \<Rightarrow> string list \<Rightarrow> string" where
  "validateConfig_path configPath args =
     (let path0 = DefaultConfigPath;
          path1 = (if configPath \<noteq> '''' then configPath else path0);
          path2 = (if length args = 1 then args ! 0 else path1)
      in path2)"

subsection \<open>\<open>pack\<close>: building the tree, marshalling it, printing it\<close>

text \<open>
  \<^verbatim>\<open>errors.Wrap(err, message)\<close> of \<^verbatim>\<open>github.com/pkg/errors\<close>: a new error that
  keeps \<^verbatim>\<open>err\<close> as its cause and whose \<^verbatim>\<open>Error()\<close> text is the message, a colon,
  a space and the cause's text. The type of the cause is left open: it is whatever
  \<^verbatim>\<open>filetree.NewTree\<close> and \<^verbatim>\<open>yaml.Marshal\<close> return.
\<close>

datatype 'e wrapped = Wrap (Cause: 'e) (context_message: string)

fun Error :: "('e \<Rightarrow> string) \<Rightarrow> 'e wrapped \<Rightarrow> string" where
  "Error cause_text (Wrap err message) = message @ '': '' @ cause_text err"

text \<open>
  How a run of \<^verbatim>\<open>packConfig\<close> ends: it returns \<^verbatim>\<open>nil\<close>, it returns an error,
  or \<^verbatim>\<open>opts.args[0]\<close> indexes an empty slice and the run panics.
\<close>

datatype 'e ending = Returned_nil | Returned_error "'e wrapped" | Panicked

text \<open>
  \<^verbatim>\<open>packConfig\<close>. \<^verbatim>\<open>filetree.NewTree\<close> and \<^verbatim>\<open>yaml.Marshal\<close> live outside this
  file and are parameters, each returning an error (\<open>Inl\<close>) or a value. Standard output is
  the text written so far; \<^verbatim>\<open>fmt.Printf("%s\n", string(y))\<close> appends to it.
\<close>

definition packConfig ::
  "(string \<Rightarrow> 'e + 't) \<Rightarrow> ('t \<Rightarrow> 'e + string) \<Rightarrow> string list \<Rightarrow> string \<Rightarrow> 'e ending \<times> string"
where
  "packConfig NewTree Marshal args stdout =
     (case args of
        [] \<Rightarrow> (Panicked, stdout)
      | arg0 # _ \<Rightarrow>
          (case NewTree arg0 of
             Inl err \<Rightarrow>
               (Returned_error (Wrap err ''An error occurred trying to build the tree''), stdout)
           | Inr tree \<Rightarrow>
               (case Marshal tree of
                  Inl err \<Rightarrow>
                    (Returned_error (Wrap err ''Failed trying to marshal the tree to YAML ''), stdout)
                | Inr y \<Rightarrow> (Returned_nil, stdout @ y @ [CHR 0x0A]))))"

section \<open>Local execution (package local)\<close>

text \<open>
  The flag values of \<^verbatim>\<open>github.com/spf13/pflag\<close> that the commands of this program
  define (\<^verbatim>\<open>String\<close>, \<^verbatim>\<open>Int\<close>, \<^verbatim>\<open>Bool\<close>, \<^verbatim>\<open>StringArray\<close>), with the two
  methods of the \<^verbatim>\<open>Value\<close> interface the code calls, and \<^verbatim>\<open>GetSlice\<close> of
  \<^verbatim>\<open>SliceValue\<close>, which only the array value implements.
\<close>

datatype Value =
    stringValue string
  | intValue int
  | boolValue bool
  | stringArrayValue "string list"

fun Type :: "Value \<Rightarrow> string" where
  "Type (stringValue _) = ''string''"
| "Type (intValue _) = ''int''"
| "Type (boolValue _) = ''bool''"
| "Type (stringArrayValue _) = ''stringArray''"

text \<open>\<^verbatim>\<open>strconv.Itoa\<close>: the decimal digits, with a minus sign below zero.\<close>

fun digits :: "nat \<Rightarrow> string" where
  "digits n = (if n < 10 then [char_of (48 + n)] else digits (n div 10) @ [char_of (48 + n mod 10)])"

declare digits.simps [simp del]

definition Itoa :: "int \<Rightarrow> string" where
  "Itoa i = (if i < 0 then ''-'' @ digits (nat (- i)) else digits (nat i))"

text \<open>
  \<^verbatim>\<open>writeAsCSV\<close> as far as this model needs it: the fields joined by commas (a field
  with a comma, a quote or a line break would be quoted by \<^verbatim>\<open>encoding/csv\<close>; the text
  of an array flag is never passed on by the code below).
\<close>

fun join_commas :: "string list \<Rightarrow> string" where
  "join_commas [] = []"
| "join_commas [v] = v"
| "join_commas (v # vs) = v @ '','' @ join_commas vs"

fun String :: "Value \<Rightarrow> string" where
  "String (stringValue s) = s"
| "String (intValue i) = Itoa i"
| "String (boolValue b) = (if b then ''true'' else ''false'')"
| "String (stringArrayValue vs) = ''['' @ join_commas vs @ '']''"

fun GetSlice :: "Value \<Rightarrow> string list" where
  "GetSlice (stringArrayValue vs) = vs"
| "GetSlice _ = []"

record Flag =
  Name :: string
  Value :: Value

text \<open>
  A \<^verbatim>\<open>pflag.FlagSet\<close> as the code observes it: the flags that are defined, the flags
  that were set on the command line in the order \<^verbatim>\<open>Visit\<close> goes through them, and
  the positional arguments left after the flags.
\<close>

record FlagSet =
  formal :: "Flag list"
  actual :: "Flag list"
  Args :: "string list"

text \<open>
  \<^verbatim>\<open>Visit\<close> calls the function on every flag that was set; the closure passed by
  \<^verbatim>\<open>buildAgentArguments\<close> updates the captured slice \<^verbatim>\<open>result\<close>, which is the
  state threaded here.
\<close>

fun Visit :: "Flag list \<Rightarrow> (Flag \<Rightarrow> 's \<Rightarrow> 's) \<Rightarrow> 's \<Rightarrow> 's" where
  "Visit [] fn s = s"
| "Visit (flag # flags) fn s = Visit flags fn (fn flag s)"

text \<open>
  \<^verbatim>\<open>GetString\<close>: the flag is looked up by name; an undefined flag and a flag of
  another type are errors, and the string returned with the error is empty.
\<close>

definition GetString :: "FlagSet \<Rightarrow> string \<Rightarrow> string \<times> bool" where
  "GetString flags name =
     (case find (\<lambda>flag. Name flag = name) (formal flags) of
        None \<Rightarrow> ([], False)
      | Some flag \<Rightarrow>
          if Type (Value flag) \<noteq> ''string'' then ([], False)
          else (String (Value flag), True))"

text \<open>\<^verbatim>\<open>unparseFlag\<close>: the loop over an array flag's values appends a pair per value.\<close>

fun append_pairs :: "string \<Rightarrow> string list \<Rightarrow> string list \<Rightarrow> string list" where
  "append_pairs flagName [] result = result"
| "append_pairs flagName (v # vs) result = append_pairs flagName vs (result @ [flagName, v])"

definition unparseFlag :: "FlagSet \<Rightarrow> Flag \<Rightarrow> string list" where
  "unparseFlag flags flag =
     (let flagName = ''--'' @ Name flag;
          result = []
      in if Type (Value flag) = ''stringArray''
         then append_pairs flagName (GetSlice (Value flag)) result
         else result @ [flagName, String (Value flag)])"

definition buildAgentArguments :: "FlagSet \<Rightarrow> string list \<times> string" where
  "buildAgentArguments flags =
     (let result = [];
          result = Visit (actual flags)
            (\<lambda>flag result.
               if Name flag \<noteq> ''org-slug'' \<and> Name flag \<noteq> ''config'' \<and>
                  Name flag \<noteq> ''debug'' \<and> Name flag \<noteq> ''org-id''
               then result @ unparseFlag flags flag
               else result)
            result;
          result = result @ Args flags;
          configPath = fst (GetString flags ''config'')
      in (result, configPath))"

text \<open>
  What the documentation of \<^verbatim>\<open>buildAgentArguments\<close> promises, written without the
  loops: the values a flag stands for, and the flags that are consumed by this program
  and not passed on.
\<close>

definition consumed_flags :: "string list" where
  "consumed_flags = [''org-slug'', ''config'', ''debug'', ''org-id'']"

fun flag_values :: "Value \<Rightarrow> string list" where
  "flag_values (stringArrayValue vs) = vs"
| "flag_values v = [String v]"

definition flag_pairs :: "Flag \<Rightarrow> string list" where
  "flag_pairs flag = concat (map (\<lambda>v. [''--'' @ Name flag, v]) (flag_values (Value flag)))"

section \<open>The packing engine (package filetree)\<close>

text \<open>
  Modelled from the spec: the package \<^verbatim>\<open>filetree\<close> (\<^verbatim>\<open>filetree.NewTree\<close> and the
  tree's \<^verbatim>\<open>MarshalYAML\<close>, both called by \<^verbatim>\<open>packConfig\<close>) is not among the sources.
  Every definition of this section follows the specification's sections 3, 4, 6 and 7; the
  YAML parser and the YAML printer are libraries and stay parameters (\<open>parse\<close>,
  \<open>render\<close>).
\<close>

subsection \<open>Data model\<close>

text \<open>
  Modelled from the spec: Node (section 3), "a polymorphic union of Scalar value, Mapping,
  Sequence", as the tagged variant section 9 asks for. A Mapping keeps its keys in the
  order they were put in, which the Serializer preserves (4.7).
\<close>

datatype Node = Scalar string | Mapping "(string \<times> Node) list" | Sequence "Node list"

text \<open>Modelled from the spec: "the actual kind encountered" of a Node (4.6).\<close>

datatype node_kind = ScalarKind | MappingKind | SequenceKind

fun kind_of :: "Node \<Rightarrow> node_kind" where
  "kind_of (Scalar _) = ScalarKind"
| "kind_of (Mapping _) = MappingKind"
| "kind_of (Sequence _) = SequenceKind"

text \<open>
  Modelled from the spec: the filesystem subtree the engine receives (section 5). A
  directory lists its children, name and content, in the iteration order of the
  operating system; a file has its text; an entry may be unreadable (section 7,
  "unreadable, or permission denied"). The hierarchy is a tree: "acyclic by
  construction" (4.4).
\<close>

datatype fsnode =
    RegularFile string
  | Dir "(string \<times> fsnode) list"
  | UnreadableFile
  | UnreadableDir

text \<open>
  Modelled from the spec: DirectoryEntry (section 3), "name, kind: File | Directory,
  path". An entry is kept as the pair of its name and what the filesystem holds there;
  its kind and its path are computed from the pair.
\<close>

datatype entry_kind = File | Directory

fun kind :: "fsnode \<Rightarrow> entry_kind" where
  "kind (RegularFile _) = File"
| "kind UnreadableFile = File"
| "kind (Dir _) = Directory"
| "kind UnreadableDir = Directory"

definition join_path :: "string \<Rightarrow> string \<Rightarrow> string" where
  "join_path dir name = dir @ ''/'' @ name"

text \<open>
  Modelled from the spec: the error taxonomy of section 7. An \<open>IOError\<close> carries the
  path; a \<open>ParseError\<close> the file path and the syntax diagnostic; a \<open>StructureError\<close> is
  one of the three structural violations, with the paths and the kind that locate it.
\<close>

datatype violation =
    KeyCollision string string
  | UnsupportedNesting string
  | NonMappingRoot string node_kind

datatype pack_error = IOError string | ParseError string string | StructureError violation

subsection \<open>Path Scanner and Leaf Loader\<close>

text \<open>Modelled from the spec: "Hidden/system entries (platform-specific dotfiles)" (4.1).\<close>

definition hidden :: "string \<Rightarrow> bool" where
  "hidden name = (case name of [] \<Rightarrow> False | c # _ \<Rightarrow> c = CHR ''.'')"

definition visible :: "(string \<times> fsnode) list \<Rightarrow> (string \<times> fsnode) list" where
  "visible children = filter (\<lambda>e. \<not> hidden (fst e)) children"

text \<open>
  Modelled from the spec: Path Scanner (4.1): "given a directory path, returns an
  ordered sequence of DirectoryEntry for its immediate children, sorted lexicographically
  by name. Fails with IOError if the path does not exist or is not readable. Hidden
  entries are skipped."
\<close>

definition PathScanner :: "string \<Rightarrow> fsnode \<Rightarrow> pack_error + (string \<times> fsnode) list" where
  "PathScanner dir node =
     (case node of
        Dir children \<Rightarrow> Inr (sort_key fst (visible children))
      | _ \<Rightarrow> Inl (IOError dir))"

text \<open>
  Modelled from the spec: Leaf Loader (4.2): "reads its full content and parses it.
  Fails with ParseError (carrying the file path and underlying syntax error) if the
  content is not well-formed. Empty files parse to an empty Mapping."
\<close>

definition LeafLoader ::
  "(string \<Rightarrow> string + Node) \<Rightarrow> string \<Rightarrow> fsnode \<Rightarrow> pack_error + Node" where
  "LeafLoader parse path node =
     (case node of
        RegularFile content \<Rightarrow>
          if content = [] then Inr (Mapping [])
          else (case parse content of
                  Inl diagnostic \<Rightarrow> Inl (ParseError path diagnostic)
                | Inr document \<Rightarrow> Inr document)
      | _ \<Rightarrow> Inl (IOError path))"

subsection \<open>Keys and collisions\<close>

text \<open>
  Modelled from the spec: "key = file base name without extension" (4.3), with
  "extension-based stripping" as section 9 settles it: the name up to its last dot.
\<close>

definition strip_ext :: "string \<Rightarrow> string" where
  "strip_ext name =
     (if CHR ''.'' \<in> set name then rev (tl (dropWhile (\<lambda>c. c \<noteq> CHR ''.'') (rev name)))
      else name)"

text \<open>
  Modelled from the spec: the key an entry resolves to: a file's base name without
  extension (4.3), a directory's name (4.4, "its name becomes the orb's key").
\<close>

definition entry_key :: "string \<times> fsnode \<Rightarrow> string" where
  "entry_key e = (if kind (snd e) = Directory then fst e else strip_ext (fst e))"

text \<open>
  Modelled from the spec: "No two sibling entries may resolve to the same key; a
  collision is a fatal input error identifying both source paths" (section 3). The
  first entry, in listing order, that shares its key with a later one is reported with
  that later one.
\<close>

fun find_collision :: "string \<Rightarrow> (string \<times> fsnode) list \<Rightarrow> (string \<times> string) option" where
  "find_collision dir [] = None"
| "find_collision dir (e # es) =
     (case find (\<lambda>e'. entry_key e' = entry_key e) es of
        Some e' \<Rightarrow> Some (join_path dir (fst e), join_path dir (fst e'))
      | None \<Rightarrow> find_collision dir es)"

text \<open>
  Modelled from the spec: the first step of every component that walks a directory
  (4.3, 4.4, 4.5 step 1): scan the immediate children, then reject a key collision.
\<close>

definition scan_directory :: "string \<Rightarrow> fsnode \<Rightarrow> pack_error + (string \<times> fsnode) list" where
  "scan_directory dir node =
     (case PathScanner dir node of
        Inl err \<Rightarrow> Inl err
      | Inr entries \<Rightarrow>
          (case find_collision dir entries of
             Some (first, second) \<Rightarrow> Inl (StructureError (KeyCollision first second))
           | None \<Rightarrow> Inr entries))"

subsection \<open>Merging\<close>

text \<open>
  Modelled from the spec: "All errors are fatal" (section 7): the entries of a listing
  are handled in order and the first error ends the walk.
\<close>

fun traverse :: "('a \<Rightarrow> 'e + 'b) \<Rightarrow> 'a list \<Rightarrow> 'e + 'b list" where
  "traverse f [] = Inr []"
| "traverse f (x # xs) =
     (case f x of
        Inl err \<Rightarrow> Inl err
      | Inr y \<Rightarrow> (case traverse f xs of Inl err \<Rightarrow> Inl err | Inr ys \<Rightarrow> Inr (y # ys)))"

text \<open>
  Modelled from the spec: the "explicit merge function operating on two Mapping values
  with documented key-overwrite semantics" (section 9): a key already present is
  overwritten where it stands ("overwriting any same-named key inherited from the base
  document", 4.5), a new key is added at the end.
\<close>

fun merge_key :: "string \<Rightarrow> Node \<Rightarrow> (string \<times> Node) list \<Rightarrow> (string \<times> Node) list" where
  "merge_key k v [] = [(k, v)]"
| "merge_key k v ((k', v') # kvs) =
     (if k' = k then (k, v) # kvs else (k', v') # merge_key k v kvs)"

fun merge_all :: "(string \<times> Node) list \<Rightarrow> (string \<times> Node) list \<Rightarrow> (string \<times> Node) list" where
  "merge_all base [] = base"
| "merge_all base ((k, v) # kvs) = merge_all (merge_key k v base) kvs"

subsection \<open>Reserved-Directory Interpreter\<close>

text \<open>
  Modelled from the spec: Reserved-Directory Interpreter (4.3), one child: "Each
  immediate child file becomes one entry: key = file base name without extension,
  value = Leaf Loader output for that file. Subdirectories under these three reserved
  directories are not supported and are a fatal StructureError."
\<close>

definition section_entry ::
  "(string \<Rightarrow> string + Node) \<Rightarrow> string \<Rightarrow> string \<times> fsnode \<Rightarrow> pack_error + string \<times> Node" where
  "section_entry parse dir e =
     (if kind (snd e) = Directory
      then Inl (StructureError (UnsupportedNesting (join_path dir (fst e))))
      else (case LeafLoader parse (join_path dir (fst e)) (snd e) of
              Inl err \<Rightarrow> Inl err
            | Inr document \<Rightarrow> Inr (strip_ext (fst e), document)))"

text \<open>
  Modelled from the spec: Reserved-Directory Interpreter (4.3), the whole directory:
  the mapping of its children, in listing order. The Tree Builder puts it under the
  directory's name.
\<close>

definition ReservedInterpreter ::
  "(string \<Rightarrow> string + Node) \<Rightarrow> string \<Rightarrow> fsnode \<Rightarrow> pack_error + Node" where
  "ReservedInterpreter parse dir node =
     (case scan_directory dir node of
        Inl err \<Rightarrow> Inl err
      | Inr entries \<Rightarrow>
          (case traverse (section_entry parse dir) entries of
             Inl err \<Rightarrow> Inl err
           | Inr kvs \<Rightarrow> Inr (Mapping kvs)))"

subsection \<open>Tree Builder and Orb Inliner\<close>

text \<open>Modelled from the spec: "the three reserved directories (commands, jobs, executors)" (4.5).\<close>

definition reserved_names :: "string list" where
  "reserved_names = [''commands'', ''jobs'', ''executors'']"

text \<open>
  Modelled from the spec: the primary document, "the tree's own top-level configuration
  file" (4.5 step 2), \<^verbatim>\<open>config.yml\<close> in the layout of section 6 and
  \<^verbatim>\<open>config.yaml\<close> in the test of \<^verbatim>\<open>config_test.go\<close>: the file whose base name
  without extension is \<open>config\<close>.
\<close>

definition is_primary :: "string \<times> fsnode \<Rightarrow> bool" where
  "is_primary e = (kind (snd e) = File \<and> strip_ext (fst e) = ''config'')"

text \<open>Modelled from the spec: "a directory named commands, jobs, or executors" (4.3).\<close>

definition is_reserved :: "string \<times> fsnode \<Rightarrow> bool" where
  "is_reserved e = (kind (snd e) = Directory \<and> fst e \<in> set reserved_names)"

text \<open>Modelled from the spec: "a directory named orbs" (4.4).\<close>

definition is_orbs :: "string \<times> fsnode \<Rightarrow> bool" where
  "is_orbs e = (kind (snd e) = Directory \<and> fst e = ''orbs'')"

text \<open>
  Modelled from the spec: the order of steps 3, 4 and 5 of the Tree Builder (4.5): the
  reserved directories that are present, then the \<open>orbs\<close> directory, then every other
  entry that is not the primary document, in listing order.
\<close>

definition merge_order :: "(string \<times> fsnode) list \<Rightarrow> (string \<times> fsnode) list" where
  "merge_order entries =
     concat (map (\<lambda>r. filter (\<lambda>e. is_reserved e \<and> fst e = r) entries) reserved_names)
     @ filter is_orbs entries
     @ filter (\<lambda>e. \<not> is_primary e \<and> \<not> is_reserved e \<and> \<not> is_orbs e) entries"

text \<open>
  Modelled from the spec: step 2 of the Tree Builder (4.5): "If a root-level file
  representing the primary document exists, parse it and seed the result Mapping with
  its top-level keys as the base." The path of the document loaded is kept: it is the
  source path the Merge Validator names (4.6). Without a primary document the base is
  empty and the source is the directory.
\<close>

definition load_primary ::
  "(string \<Rightarrow> string + Node) \<Rightarrow> string \<Rightarrow> (string \<times> fsnode) list
     \<Rightarrow> pack_error + string \<times> Node" where
  "load_primary parse dir entries =
     (case find is_primary entries of
        None \<Rightarrow> Inr (dir, Mapping [])
      | Some e \<Rightarrow>
          (case LeafLoader parse (join_path dir (fst e)) (snd e) of
             Inl err \<Rightarrow> Inl err
           | Inr document \<Rightarrow> Inr (join_path dir (fst e), document)))"

text \<open>What the recursion below needs to know: a walk only reaches children.\<close>

lemma traverse_cong [fundef_cong]:
  "xs = ys \<Longrightarrow> (\<And>x. x \<in> set ys \<Longrightarrow> f x = g x) \<Longrightarrow> traverse f xs = traverse g ys"
  by (induction ys arbitrary: xs) (auto split: sum.splits)

lemma child_size: "e \<in> set children \<Longrightarrow> size (snd e) < size (Dir children)"
  by (induction children) auto

lemma PathScanner_set:
  "PathScanner dir node = Inr entries \<Longrightarrow>
     \<exists>children. node = Dir children \<and> set entries = {e \<in> set children. \<not> hidden (fst e)}"
  by (cases node) (auto simp: PathScanner_def visible_def)

lemma scan_directory_PathScanner:
  "scan_directory dir node = Inr entries \<Longrightarrow> PathScanner dir node = Inr entries"
  by (auto simp: scan_directory_def split: sum.splits option.splits)

lemma scan_directory_size:
  "scan_directory dir node = Inr entries \<Longrightarrow> e \<in> set entries \<Longrightarrow> size (snd e) < size node"
  using PathScanner_set [OF scan_directory_PathScanner] child_size by blast

lemma scan_directory_child_size:
  "scan_directory dir node = Inr entries \<Longrightarrow> (name, child) \<in> set entries
     \<Longrightarrow> size child < size node"
  using scan_directory_size by fastforce

lemma merge_order_member: "e \<in> set (merge_order entries) \<Longrightarrow> e \<in> set entries"
  by (auto simp: merge_order_def)

text \<open>
  Modelled from the spec: Tree Builder (4.5) and Orb Inliner (4.4), which call each
  other.

  Tree Builder: scan the children (step 1); load the primary document (step 2); when it
  is a Mapping, merge into it, in the order of steps 3 to 5, the output of the
  Reserved-Directory Interpreter for a reserved directory, the output of the Orb Inliner
  for \<open>orbs\<close>, and for any other entry "the Leaf Loader output (if a file) or a
  recursively packed Mapping (if a directory)". When the primary document is not a
  Mapping it has no top-level keys to seed a Mapping with, and the packed result
  "resolves to" that document (4.6), with the document's path as its source.

  Orb Inliner: "Each immediate child that is a directory is treated as one local orb:
  its name becomes the orb's key, and the Tree Builder is invoked recursively on that
  subdirectory. Each immediate child that is a file is treated as an orb reference
  whose value is the Leaf Loader output of that file."
\<close>

function TreeBuilder ::
    "(string \<Rightarrow> string + Node) \<Rightarrow> string \<Rightarrow> fsnode \<Rightarrow> pack_error + string \<times> Node"
  and OrbInliner ::
    "(string \<Rightarrow> string + Node) \<Rightarrow> string \<Rightarrow> fsnode \<Rightarrow> pack_error + Node"
where
  "TreeBuilder parse dir node =
     (case scan_directory dir node of
        Inl err \<Rightarrow> Inl err
      | Inr entries \<Rightarrow>
          (case load_primary parse dir entries of
             Inl err \<Rightarrow> Inl err
           | Inr (source, Mapping base) \<Rightarrow>
               (case traverse
                       (\<lambda>e. if is_reserved e then
                              (case ReservedInterpreter parse (join_path dir (fst e)) (snd e) of
                                 Inl err \<Rightarrow> Inl err
                               | Inr section \<Rightarrow> Inr (fst e, section))
                            else if is_orbs e then
                              (case OrbInliner parse (join_path dir (fst e)) (snd e) of
                                 Inl err \<Rightarrow> Inl err
                               | Inr orbs \<Rightarrow> Inr (fst e, orbs))
                            else if kind (snd e) = Directory then
                              (case TreeBuilder parse (join_path dir (fst e)) (snd e) of
                                 Inl err \<Rightarrow> Inl err
                               | Inr packed \<Rightarrow> Inr (fst e, snd packed))
                            else
                              (case LeafLoader parse (join_path dir (fst e)) (snd e) of
                                 Inl err \<Rightarrow> Inl err
                               | Inr document \<Rightarrow> Inr (strip_ext (fst e), document)))
                       (merge_order entries) of
                  Inl err \<Rightarrow> Inl err
                | Inr kvs \<Rightarrow> Inr (dir, Mapping (merge_all base kvs)))
           | Inr (source, document) \<Rightarrow> Inr (source, document)))"
| "OrbInliner parse dir node =
     (case scan_directory dir node of
        Inl err \<Rightarrow> Inl err
      | Inr entries \<Rightarrow>
          (case traverse
                  (\<lambda>e. if kind (snd e) = Directory then
                         (case TreeBuilder parse (join_path dir (fst e)) (snd e) of
                            Inl err \<Rightarrow> Inl err
                          | Inr packed \<Rightarrow> Inr (fst e, snd packed))
                       else
                         (case LeafLoader parse (join_path dir (fst e)) (snd e) of
                            Inl err \<Rightarrow> Inl err
                          | Inr document \<Rightarrow> Inr (strip_ext (fst e), document)))
                  entries of
             Inl err \<Rightarrow> Inl err
           | Inr kvs \<Rightarrow> Inr (Mapping kvs)))"
  by pat_completeness auto
termination
proof (relation "measure (\<lambda>x. case x of Inl (_, _, n) \<Rightarrow> size n | Inr (_, _, n) \<Rightarrow> size n)")
  show "wf (measure (\<lambda>x. case x of Inl (_, _, n) \<Rightarrow> size n | Inr (_, _, n) \<Rightarrow> size n))"
    by simp
qed (auto dest!: merge_order_member intro: scan_directory_child_size)

declare TreeBuilder.simps [simp del] OrbInliner.simps [simp del]

text \<open>
  Modelled from the spec: the step the Tree Builder takes for one entry (4.5, steps 3 to
  5) and the step the Orb Inliner takes for one child (4.4), under names of their own.
  The two functions above, written with them, are \<open>TreeBuilder_unfold\<close> and
  \<open>OrbInliner_unfold\<close> below.
\<close>

definition pack_entry ::
  "(string \<Rightarrow> string + Node) \<Rightarrow> string \<Rightarrow> string \<times> fsnode \<Rightarrow> pack_error + string \<times> Node" where
  "pack_entry parse dir e =
     (if is_reserved e then
        (case ReservedInterpreter parse (join_path dir (fst e)) (snd e) of
           Inl err \<Rightarrow> Inl err
         | Inr section \<Rightarrow> Inr (fst e, section))
      else if is_orbs e then
        (case OrbInliner parse (join_path dir (fst e)) (snd e) of
           Inl err \<Rightarrow> Inl err
         | Inr orbs \<Rightarrow> Inr (fst e, orbs))
      else if kind (snd e) = Directory then
        (case TreeBuilder parse (join_path dir (fst e)) (snd e) of
           Inl err \<Rightarrow> Inl err
         | Inr packed \<Rightarrow> Inr (fst e, snd packed))
      else
        (case LeafLoader parse (join_path dir (fst e)) (snd e) of
           Inl err \<Rightarrow> Inl err
         | Inr document \<Rightarrow> Inr (strip_ext (fst e), document)))"

definition orb_entry ::
  "(string \<Rightarrow> string + Node) \<Rightarrow> string \<Rightarrow> string \<times> fsnode \<Rightarrow> pack_error + string \<times> Node" where
  "orb_entry parse dir e =
     (if kind (snd e) = Directory then
        (case TreeBuilder parse (join_path dir (fst e)) (snd e) of
           Inl err \<Rightarrow> Inl err
         | Inr packed \<Rightarrow> Inr (fst e, snd packed))
      else
        (case LeafLoader parse (join_path dir (fst e)) (snd e) of
           Inl err \<Rightarrow> Inl err
         | Inr document \<Rightarrow> Inr (strip_ext (fst e), document)))"

text \<open>
  Modelled from the spec: the walk of section 5, "each invocation performs depth-first
  traversal". A call is a component (Tree Builder, Reserved-Directory Interpreter, Orb
  Inliner) invoked on a directory path and what the filesystem holds there.
\<close>

datatype packer = TreePacker | SectionPacker | OrbsPacker


text \<open>Modelled from the spec: the Node, or the error, a call returns.\<close>

fun run :: "(string \<Rightarrow> string + Node) \<Rightarrow> packer \<times> string \<times> fsnode \<Rightarrow> pack_error + Node" where
  "run parse (TreePacker, dir, node) =
     (case TreeBuilder parse dir node of Inl err \<Rightarrow> Inl err | Inr packed \<Rightarrow> Inr (snd packed))"
| "run parse (SectionPacker, dir, node) = ReservedInterpreter parse dir node"
| "run parse (OrbsPacker, dir, node) = OrbInliner parse dir node"


subsection \<open>Merge Validator, Serializer and the entry point\<close>

text \<open>
  Modelled from the spec: Merge Validator (4.6): "given the root PackedTree's
  underlying Node, verify its kind is Mapping. If not, fail with a StructureError that
  names the offending source path and the actual kind encountered."
\<close>

definition MergeValidator :: "string \<times> Node \<Rightarrow> pack_error + Node" where
  "MergeValidator packed =
     (case snd packed of
        Mapping kvs \<Rightarrow> Inr (Mapping kvs)
      | other \<Rightarrow> Inl (StructureError (NonMappingRoot (fst packed) (kind_of other))))"

text \<open>
  Modelled from the spec: \<^verbatim>\<open>filetree.NewTree\<close>, the first call of \<^verbatim>\<open>packConfig\<close>:
  the Tree Builder at the root path (section 2, "caller supplies a root path, Tree
  Builder walks it"), an \<open>IOError\<close> when nothing is there (section 7, "path missing").
  The filesystem maps the root path to the subtree found there.
\<close>

definition filetree_NewTree ::
  "(string \<Rightarrow> string + Node) \<Rightarrow> (string \<Rightarrow> fsnode option) \<Rightarrow> string \<Rightarrow> pack_error + string \<times> Node"
where
  "filetree_NewTree parse fs rootPath =
     (case fs rootPath of
        None \<Rightarrow> Inl (IOError rootPath)
      | Some node \<Rightarrow> TreeBuilder parse rootPath node)"

text \<open>
  Modelled from the spec: marshalling the tree, the second call of \<^verbatim>\<open>packConfig\<close>:
  "Merge Validator checks the root type, Serializer emits text" (section 2). The
  Serializer (4.7) is the parameter \<open>render\<close>, a "pure function".
\<close>

definition yaml_Marshal :: "(Node \<Rightarrow> string) \<Rightarrow> string \<times> Node \<Rightarrow> pack_error + string" where
  "yaml_Marshal render packed =
     (case MergeValidator packed of
        Inl err \<Rightarrow> Inl err
      | Inr root \<Rightarrow> Inr (render root))"

text \<open>
  Modelled from the spec: the entry point of section 6,
  \<^verbatim>\<open>Pack(rootPath string) -> (document bytes, error)\<close>.
\<close>

definition Pack ::
  "(string \<Rightarrow> string + Node) \<Rightarrow> (Node \<Rightarrow> string) \<Rightarrow> (string \<Rightarrow> fsnode option) \<Rightarrow> string
     \<Rightarrow> pack_error + string" where
  "Pack parse render fs rootPath =
     (case filetree_NewTree parse fs rootPath of
        Inl err \<Rightarrow> Inl err
      | Inr packed \<Rightarrow> yaml_Marshal render packed)"

text \<open>
  Modelled from the spec: one directory tree however the operating system iterates over
  it ("regardless of filesystem iteration order provided by the OS", section 8): the
  tree with the children of every directory put in name order. Two listings of the same
  tree have the same canonical form.
\<close>

fun canonical :: "fsnode \<Rightarrow> fsnode" where
  "canonical (Dir children) = Dir (sort_key fst (map (\<lambda>e. (fst e, canonical (snd e))) children))"
| "canonical node = node"

section \<open>Example inputs\<close>


text \<open>
  A tree builder that finds no directory at the path it is given (the text is the one
  Go's \<^verbatim>\<open>os\<close> package gives), and a marshaller that is never reached.
\<close>

definition missing_root :: "string \<Rightarrow> string + unit" where
  "missing_root path = Inl (''open '' @ path @ '': no such file or directory'')"

definition marshal_nothing :: "unit \<Rightarrow> string + string" where
  "marshal_nothing tree = Inr []"

text \<open>
  The flags of \<^verbatim>\<open>local execute -c my/config.yml -e A=1 -e B=2 --node-total 12
  --org-id abc extra\<close>.
\<close>

definition example_flags :: FlagSet where
  "example_flags =
     \<lparr>formal = [\<lparr>Name = ''config'', Value = stringValue ''my/config.yml''\<rparr>,
                \<lparr>Name = ''job'', Value = stringValue ''build''\<rparr>,
                \<lparr>Name = ''node-total'', Value = intValue 12\<rparr>,
                \<lparr>Name = ''env'', Value = stringArrayValue [''A=1'', ''B=2'']\<rparr>,
                \<lparr>Name = ''org-id'', Value = stringValue ''abc''\<rparr>],
      actual = [\<lparr>Name = ''config'', Value = stringValue ''my/config.yml''\<rparr>,
                \<lparr>Name = ''env'', Value = stringArrayValue [''A=1'', ''B=2'']\<rparr>,
                \<lparr>Name = ''node-total'', Value = intValue 12\<rparr>,
                \<lparr>Name = ''org-id'', Value = stringValue ''abc''\<rparr>],
      Args = [''extra'']\<rparr>"

text \<open>
  A parser that knows the documents of the examples below, and a printer (in flow
  style) to make the printed text concrete.
\<close>

definition example_parse :: "string \<Rightarrow> string + Node" where
  "example_parse content =
     (case map_of
        [(''version: 2.1'', Mapping [(''version'', Scalar ''2.1'')]),
         (''[]'', Sequence []),
         (''jobs: {build: {docker: inline}}'',
            Mapping [(''jobs'', Mapping [(''build'', Mapping [(''docker'', Scalar ''inline'')])])]),
         (''docker: file'', Mapping [(''docker'', Scalar ''file'')]),
         (''steps: [checkout]'', Mapping [(''steps'', Sequence [Scalar ''checkout''])])]
        content of
        None \<Rightarrow> Inl ''syntax error''
      | Some document \<Rightarrow> Inr document)"

fun example_render :: "Node \<Rightarrow> string" where
  "example_render (Scalar s) = s"
| "example_render (Mapping kvs) =
     ''{'' @ concat (map (\<lambda>kv. fst kv @ '': '' @ example_render (snd kv) @ '', '') kvs) @ ''}''"
| "example_render (Sequence ns) =
     ''['' @ concat (map (\<lambda>n. example_render n @ '', '') ns) @ '']''"

text \<open>The root of the test "a config which is a list and not a map".\<close>

definition list_root :: fsnode where
  "list_root = Dir [(''config.yaml'', RegularFile ''[]'')]"

definition list_fs :: "string \<Rightarrow> fsnode option" where
  "list_fs path = (if path = ''myorb'' then Some list_root else None)"

text \<open>A primary document with an inline \<open>jobs.build\<close>, and the file \<^verbatim>\<open>jobs/build.yml\<close>.\<close>

definition override_root :: "(string \<times> fsnode) list" where
  "override_root =
     [(''jobs'', Dir [(''build.yml'', RegularFile ''docker: file'')]),
      (''config.yml'', RegularFile ''jobs: {build: {docker: inline}}'')]"

text \<open>
  The local orb \<^verbatim>\<open>orbs/foo\<close> with \<^verbatim>\<open>config.yml\<close> and \<^verbatim>\<open>commands/build.yml\<close>,
  beside the orb reference \<^verbatim>\<open>orbs/pin.yml\<close>.
\<close>

definition foo_orb :: fsnode where
  "foo_orb = Dir [(''config.yml'', RegularFile ''version: 2.1''),
                  (''commands'', Dir [(''build.yml'', RegularFile ''steps: [checkout]'')])]"

definition orbs_dir :: "(string \<times> fsnode) list" where
  "orbs_dir = [(''pin.yml'', RegularFile ''version: 2.1''), (''foo'', foo_orb)]"

definition orbs_root :: "(string \<times> fsnode) list" where
  "orbs_root = [(''orbs'', Dir orbs_dir)]"


text \<open>The files \<^verbatim>\<open>a.yml\<close> and \<^verbatim>\<open>b.yml\<close> of \<^verbatim>\<open>commands\<close>, listed in both orders.\<close>

definition b_then_a :: "(string \<times> fsnode) list" where
  "b_then_a = [(''b.yml'', RegularFile ''docker: file''), (''a.yml'', RegularFile ''steps: [checkout]'')]"

definition a_then_b :: "(string \<times> fsnode) list" where
  "a_then_b = [(''a.yml'', RegularFile ''steps: [checkout]''), (''b.yml'', RegularFile ''docker: file'')]"

text \<open>One tree as two runs may see it: the same entries, iterated in different orders.\<close>

definition first_listing :: fsnode where
  "first_listing =
     Dir [(''commands'', Dir b_then_a), (''config.yml'', RegularFile ''version: 2.1'')]"

definition second_listing :: fsnode where
  "second_listing =
     Dir [(''config.yml'', RegularFile ''version: 2.1''), (''commands'', Dir a_then_b)]"

definition first_fs :: "string \<Rightarrow> fsnode option" where
  "first_fs path = (if path = ''root'' then Some first_listing else None)"

definition second_fs :: "string \<Rightarrow> fsnode option" where
  "second_fs path = (if path = ''root'' then Some second_listing else None)"









section \<open>Organisation lookup: the first match wins\<close>

text \<open>
  C8. For every slug and every list of collaborations, \<open>GetOrgIdFromSlug\<close> returns the
  \<open>OrgId\<close> of the first collaboration, in list order, whose \<open>OrgSlug\<close> is exactly the
  slug (\<open>find\<close> returns the first element that satisfies the test), and the empty
  string when no collaboration matches.
\<close>

theorem GetOrgIdFromSlug_first_match:
  "GetOrgIdFromSlug slug collaborations =
     (case find (\<lambda>v. OrgSlug v = slug) collaborations of
        None \<Rightarrow> []
      | Some v \<Rightarrow> OrgId v)"
proof (induction collaborations)
  case Nil
  show ?case by simp
next
  case (Cons v collaborations)
  show ?case
  proof (cases "OrgSlug v = slug")
    case True
    then show ?thesis by simp
  next
    case False
    with Cons.IH show ?thesis by simp
  qed
qed

section \<open>The path chosen by \<open>validate\<close>\<close>

text \<open>
  C9. The path \<open>validateConfig\<close> uses is chosen with a fixed precedence: the positional
  argument when exactly one is supplied; otherwise the value of the \<open>--config\<close> flag when
  it is not empty; the built-in \<open>DefaultConfigPath\<close> only when the flag value is empty
  (and no single argument is given).
\<close>

theorem validateConfig_path_precedence:
  "validateConfig_path configPath args =
     (if length args = 1 then hd args
      else if configPath \<noteq> [] then configPath
      else DefaultConfigPath)"
proof (cases args)
  case Nil
  then show ?thesis by (simp add: validateConfig_path_def Let_def)
next
  case (Cons a rest)
  then show ?thesis by (simp add: validateConfig_path_def Let_def)
qed

section \<open>The arguments passed on to the build agent\<close>

lemma append_pairs_concat:
  "append_pairs flagName vs result = result @ concat (map (\<lambda>v. [flagName, v]) vs)"
  by (induction vs arbitrary: result) simp_all

lemma unparseFlag_flag_pairs: "unparseFlag flags flag = flag_pairs flag"
  by (cases "Value flag") (simp_all add: unparseFlag_def flag_pairs_def append_pairs_concat)

lemma Visit_appending:
  "Visit fl (\<lambda>flag result. if keep flag then result @ g flag else result) acc =
     acc @ concat (map g (filter keep fl))"
  by (induction fl arbitrary: acc) simp_all

lemma flag_pairs_member:
  "x \<in> set (flag_pairs flag) \<Longrightarrow> x = ''--'' @ Name flag \<or> x \<in> set (flag_values (Value flag))"
  by (auto simp: flag_pairs_def split: if_splits)

lemma passed_on_member:
  assumes "x \<in> set (concat (map flag_pairs (filter (\<lambda>flag. Name flag \<notin> set consumed_flags) fl)) @ args)"
  shows "(\<exists>flag \<in> set fl. Name flag \<notin> set consumed_flags
            \<and> (x = ''--'' @ Name flag \<or> x \<in> set (flag_values (Value flag))))
         \<or> x \<in> set args"
proof (cases "x \<in> set args")
  case True
  then show ?thesis by simp
next
  case False
  with assms obtain flag where "flag \<in> set fl" "Name flag \<notin> set consumed_flags"
    "x \<in> set (flag_pairs flag)"
    by auto
  with flag_pairs_member [of x flag] show ?thesis by blast
qed

text \<open>
  C10. For every flag set, the list \<open>buildAgentArguments\<close> returns is made of the pairs
  \<open>--name value\<close> of the flags that were set, one pair per value (an array flag gives one
  pair per element), the flags \<open>org-slug\<close>, \<open>config\<close>, \<open>debug\<close> and \<open>org-id\<close> left out,
  followed by all positional arguments; the path returned is the value of the \<open>config\<close>
  flag (a string flag); and unless a positional argument or a value of a flag is itself
  spelled \<open>--org-slug\<close>, \<open>--config\<close>, \<open>--debug\<close> or \<open>--org-id\<close>, none of these four
  strings occurs in the list.
\<close>

theorem buildAgentArguments_passes_on:
  "fst (buildAgentArguments flags) =
     concat (map flag_pairs (filter (\<lambda>flag. Name flag \<notin> set consumed_flags) (actual flags)))
       @ Args flags
   \<and> (\<forall>flag s. find (\<lambda>flag. Name flag = ''config'') (formal flags) = Some flag
         \<and> Value flag = stringValue s \<longrightarrow> snd (buildAgentArguments flags) = s)
   \<and> ((\<forall>c \<in> set consumed_flags. ''--'' @ c \<notin> set (Args flags)
          \<and> (\<forall>flag \<in> set (actual flags). ''--'' @ c \<notin> set (flag_values (Value flag))))
        \<longrightarrow> (\<forall>c \<in> set consumed_flags. ''--'' @ c \<notin> set (fst (buildAgentArguments flags))))"
proof -
  have keep: "(\<lambda>flag. Name flag \<noteq> ''org-slug'' \<and> Name flag \<noteq> ''config'' \<and>
                  Name flag \<noteq> ''debug'' \<and> Name flag \<noteq> ''org-id'')
            = (\<lambda>flag. Name flag \<notin> set consumed_flags)"
    by (auto simp: consumed_flags_def)
  have "fst (buildAgentArguments flags) =
     concat (map (unparseFlag flags)
       (filter (\<lambda>flag. Name flag \<notin> set consumed_flags) (actual flags))) @ Args flags"
    unfolding buildAgentArguments_def Let_def fst_conv Visit_appending keep by simp
  moreover have "map (unparseFlag flags) = map flag_pairs"
    by (simp add: unparseFlag_flag_pairs fun_eq_iff)
  ultimately have list: "fst (buildAgentArguments flags) =
     concat (map flag_pairs (filter (\<lambda>flag. Name flag \<notin> set consumed_flags) (actual flags)))
       @ Args flags"
    by simp
  have path: "\<forall>flag s. find (\<lambda>flag. Name flag = ''config'') (formal flags) = Some flag
         \<and> Value flag = stringValue s \<longrightarrow> snd (buildAgentArguments flags) = s"
    by (simp add: buildAgentArguments_def GetString_def)
  have absent: "(\<forall>c \<in> set consumed_flags. ''--'' @ c \<notin> set (Args flags)
          \<and> (\<forall>flag \<in> set (actual flags). ''--'' @ c \<notin> set (flag_values (Value flag))))
        \<longrightarrow> (\<forall>c \<in> set consumed_flags. ''--'' @ c \<notin> set (fst (buildAgentArguments flags)))"
  proof (intro impI ballI notI)
    fix c
    assume clean: "\<forall>c \<in> set consumed_flags. ''--'' @ c \<notin> set (Args flags)
          \<and> (\<forall>flag \<in> set (actual flags). ''--'' @ c \<notin> set (flag_values (Value flag)))"
      and c: "c \<in> set consumed_flags"
      and "''--'' @ c \<in> set (fst (buildAgentArguments flags))"
    from this(3) list passed_on_member [of "''--'' @ c" "actual flags" "Args flags"]
    consider flag where "flag \<in> set (actual flags)" "Name flag \<notin> set consumed_flags"
        "''--'' @ c = ''--'' @ Name flag \<or> ''--'' @ c \<in> set (flag_values (Value flag))"
      | "''--'' @ c \<in> set (Args flags)"
      by auto
    then show False
    proof cases
      case 1
      with clean c show False by auto
    next
      case 2
      with clean c show False by auto
    qed
  qed
  from list path absent show ?thesis by (intro conjI)
qed

text \<open>
  The theorem at a run of \<open>local execute -c my/config.yml -e A=1 -e B=2 --node-total 12
  --org-id abc extra\<close>.
\<close>

theorem buildAgentArguments_passes_on_witness:
  "find (\<lambda>flag. Name flag = ''config'') (formal example_flags)
     = Some \<lparr>Name = ''config'', Value = stringValue ''my/config.yml''\<rparr>
   \<and> fst (buildAgentArguments example_flags) =
       [''--env'', ''A=1'', ''--env'', ''B=2'', ''--node-total'', ''12'', ''extra'']
   \<and> snd (buildAgentArguments example_flags) = ''my/config.yml''
   \<and> ''--config'' \<notin> set (fst (buildAgentArguments example_flags))
   \<and> ''--org-id'' \<notin> set (fst (buildAgentArguments example_flags))"
proof -
  have found: "find (\<lambda>flag. Name flag = ''config'') (formal example_flags)
     = Some \<lparr>Name = ''config'', Value = stringValue ''my/config.yml''\<rparr>"
    by (simp add: example_flags_def)
  have twelve: "Itoa 12 = ''12''"
    by code_simp
  have clean: "\<forall>c \<in> set consumed_flags. ''--'' @ c \<notin> set (Args example_flags)
          \<and> (\<forall>flag \<in> set (actual example_flags). ''--'' @ c \<notin> set (flag_values (Value flag)))"
    by (simp add: example_flags_def consumed_flags_def twelve)
  note passes = buildAgentArguments_passes_on [of example_flags]
  have passed: "fst (buildAgentArguments example_flags) =
      [''--env'', ''A=1'', ''--env'', ''B=2'', ''--node-total'', ''12'', ''extra'']"
    using passes by (simp add: example_flags_def consumed_flags_def flag_pairs_def twelve)
  have path: "snd (buildAgentArguments example_flags) = ''my/config.yml''"
    using passes found by simp
  have "\<forall>c \<in> set consumed_flags. ''--'' @ c \<notin> set (fst (buildAgentArguments example_flags))"
    using passes clean by blast
  then have "''--config'' \<notin> set (fst (buildAgentArguments example_flags))"
    "''--org-id'' \<notin> set (fst (buildAgentArguments example_flags))"
    by (simp_all add: consumed_flags_def)
  with found passed path show ?thesis by (intro conjI)
qed

section \<open>Errors of \<open>pack\<close>\<close>

text \<open>
  C2, as the code has it. Every error of the tree builder or of the marshaller ends the
  run: \<open>packConfig\<close> returns an error and writes nothing. The error returned is not the
  error produced: it is that error wrapped, with the context message of the failing
  stage put in front of its text; the error produced is kept, unchanged, as the cause.
\<close>

theorem packConfig_errors_fatal_and_wrapped:
  assumes "packConfig NewTree Marshal (arg0 # rest) stdout = (ending, stdout')"
  shows "(\<forall>err. NewTree arg0 = Inl err \<longrightarrow>
            ending = Returned_error (Wrap err ''An error occurred trying to build the tree'')
            \<and> stdout' = stdout)
       \<and> (\<forall>tree err. NewTree arg0 = Inr tree \<and> Marshal tree = Inl err \<longrightarrow>
            ending = Returned_error (Wrap err ''Failed trying to marshal the tree to YAML '')
            \<and> stdout' = stdout)
       \<and> (\<forall>w. ending = Returned_error w \<longrightarrow>
            stdout' = stdout
            \<and> (NewTree arg0 = Inl (Cause w)
                \<or> (\<exists>tree. NewTree arg0 = Inr tree \<and> Marshal tree = Inl (Cause w)))
            \<and> Error cause_text w = context_message w @ '': '' @ cause_text (Cause w))"
proof (cases "NewTree arg0")
  case (Inl err)
  with assms show ?thesis by (auto simp: packConfig_def)
next
  case (Inr tree)
  note built = this
  show ?thesis
  proof (cases "Marshal tree")
    case (Inl err)
    with built assms show ?thesis by (auto simp: packConfig_def)
  next
    case (Inr y)
    with built assms show ?thesis by (auto simp: packConfig_def)
  qed
qed

theorem packConfig_errors_fatal_and_wrapped_witness:
  "packConfig missing_root marshal_nothing [''nowhere''] ''$ '' =
     (Returned_error (Wrap ''open nowhere: no such file or directory''
        ''An error occurred trying to build the tree''), ''$ '')
   \<and> Error id (Wrap ''open nowhere: no such file or directory''
        ''An error occurred trying to build the tree'')
      = ''An error occurred trying to build the tree: open nowhere: no such file or directory''"
proof -
  have run: "packConfig missing_root marshal_nothing [''nowhere''] ''$ '' =
     (Returned_error (Wrap ''open nowhere: no such file or directory''
        ''An error occurred trying to build the tree''), ''$ '')"
    by (simp add: packConfig_def missing_root_def)
  from packConfig_errors_fatal_and_wrapped [OF run, of id]
  have "Error id (Wrap ''open nowhere: no such file or directory''
        ''An error occurred trying to build the tree'')
      = ''An error occurred trying to build the tree'' @ '': '' @
        ''open nowhere: no such file or directory''"
    by simp
  with run show ?thesis by simp
qed

text \<open>
  C2 as the specification states it fails: the text of the error the caller receives is
  not the text of the error that was produced.
\<close>

theorem packConfig_error_unchanged_counterexample:
  "fst (packConfig missing_root marshal_nothing [''nowhere''] []) =
     Returned_error (Wrap ''open nowhere: no such file or directory''
        ''An error occurred trying to build the tree'')
   \<and> missing_root ''nowhere'' = Inl ''open nowhere: no such file or directory''
   \<and> Error id (Wrap ''open nowhere: no such file or directory''
        ''An error occurred trying to build the tree'')
      \<noteq> ''open nowhere: no such file or directory''"
  by (simp add: packConfig_def missing_root_def)

section \<open>Facts about walks, keys and merges\<close>

lemma traverse_Inr_D:
  "traverse f xs = Inr ys \<Longrightarrow> list_all2 (\<lambda>x y. f x = Inr y) xs ys"
  by (induction xs arbitrary: ys) (auto split: sum.splits)

lemma traverse_map: "traverse f (map g xs) = traverse (\<lambda>x. f (g x)) xs"
  by (induction xs) (simp_all cong: sum.case_cong)

lemma list_all2_member:
  "list_all2 P xs ys \<Longrightarrow> x \<in> set xs \<Longrightarrow> \<exists>y \<in> set ys. P x y"
  by (induction rule: list_all2_induct) auto

lemma find_collision_None_iff:
  "find_collision dir es = None \<longleftrightarrow> distinct (map entry_key es)"
proof (induction es)
  case Nil
  show ?case by simp
next
  case (Cons e es)
  show ?case
  proof (cases "find (\<lambda>e'. entry_key e' = entry_key e) es")
    case None
    then have "entry_key e \<notin> entry_key ` set es"
      by (fastforce simp: find_None_iff)
    with None Cons.IH show ?thesis by simp
  next
    case (Some e')
    then have "e' \<in> set es" "entry_key e' = entry_key e"
      by (auto simp: find_Some_iff)
    then have "entry_key e \<in> entry_key ` set es" by (metis imageI)
    with Some show ?thesis by simp
  qed
qed


lemma PathScanner_Dir: "PathScanner dir (Dir children) = Inr (sort_key fst (visible children))"
  by (simp add: PathScanner_def)

lemma scan_directory_Dir:
  "scan_directory dir (Dir children) =
     (case find_collision dir (sort_key fst (visible children)) of
        Some (first, second) \<Rightarrow> Inl (StructureError (KeyCollision first second))
      | None \<Rightarrow> Inr (sort_key fst (visible children)))"
  by (simp add: scan_directory_def PathScanner_Dir)

lemma scan_directory_Inr:
  assumes "scan_directory dir node = Inr entries"
  obtains children where "node = Dir children" "entries = sort_key fst (visible children)"
    "distinct (map entry_key entries)"
proof -
  from assms obtain children where node: "node = Dir children"
    by (cases node) (auto simp: scan_directory_def PathScanner_def)
  with assms have "entries = sort_key fst (visible children)"
    "find_collision dir entries = None"
    by (auto simp: scan_directory_Dir split: option.splits)
  with node that show thesis by (simp add: find_collision_None_iff)
qed

lemma scanned_member:
  assumes "scan_directory dir (Dir children) = Inr entries"
    and "e \<in> set children" and "\<not> hidden (fst e)"
  shows "e \<in> set entries"
proof -
  from assms(1) have "entries = sort_key fst (visible children)"
    by (auto simp: scan_directory_Dir split: option.splits)
  with assms(2,3) show ?thesis by (simp add: visible_def)
qed




lemma TreeBuilder_unfold:
  "TreeBuilder parse dir node =
     (case scan_directory dir node of
        Inl err \<Rightarrow> Inl err
      | Inr entries \<Rightarrow>
          (case load_primary parse dir entries of
             Inl err \<Rightarrow> Inl err
           | Inr (source, Mapping base) \<Rightarrow>
               (case traverse (pack_entry parse dir) (merge_order entries) of
                  Inl err \<Rightarrow> Inl err
                | Inr kvs \<Rightarrow> Inr (dir, Mapping (merge_all base kvs)))
           | Inr (source, document) \<Rightarrow> Inr (source, document)))"
  unfolding pack_entry_def by (subst TreeBuilder.simps) (rule refl)

lemma OrbInliner_unfold:
  "OrbInliner parse dir node =
     (case scan_directory dir node of
        Inl err \<Rightarrow> Inl err
      | Inr entries \<Rightarrow>
          (case traverse (orb_entry parse dir) entries of
             Inl err \<Rightarrow> Inl err
           | Inr kvs \<Rightarrow> Inr (Mapping kvs)))"
  unfolding orb_entry_def by (subst OrbInliner.simps) (rule refl)

lemma TreeBuilder_scan_error:
  "scan_directory dir node = Inl err \<Longrightarrow> TreeBuilder parse dir node = Inl err"
  by (simp add: TreeBuilder.simps)

lemma OrbInliner_scan_error:
  "scan_directory dir node = Inl err \<Longrightarrow> OrbInliner parse dir node = Inl err"
  by (simp add: OrbInliner.simps)



lemma TreeBuilder_Mapping:
  assumes "TreeBuilder parse dir node = Inr (source, Mapping packed)"
  obtains entries primary base kvs where
    "scan_directory dir node = Inr entries"
    "load_primary parse dir entries = Inr (primary, Mapping base)"
    "list_all2 (\<lambda>e kv. pack_entry parse dir e = Inr kv) (merge_order entries) kvs"
    "packed = merge_all base kvs" "source = dir"
proof -
  from assms obtain entries where scan: "scan_directory dir node = Inr entries"
    by (subst (asm) TreeBuilder_unfold) (auto split: sum.splits)
  with assms obtain primary document where
    primary: "load_primary parse dir entries = Inr (primary, document)"
    by (subst (asm) TreeBuilder_unfold) (auto split: sum.splits)
  show thesis
  proof (cases document)
    case (Mapping base)
    with assms scan primary obtain kvs where
      "traverse (pack_entry parse dir) (merge_order entries) = Inr kvs"
      "packed = merge_all base kvs" "source = dir"
      by (subst (asm) TreeBuilder_unfold) (auto split: sum.splits)
    with scan primary Mapping that traverse_Inr_D show thesis by blast
  next
    case (Scalar s)
    with assms scan primary show thesis
      by (subst (asm) TreeBuilder_unfold) auto
  next
    case (Sequence ns)
    with assms scan primary show thesis
      by (subst (asm) TreeBuilder_unfold) auto
  qed
qed

lemma map_of_merge_key:
  "map_of (merge_key k v kvs) k' = (if k' = k then Some v else map_of kvs k')"
  by (induction kvs) auto

lemma map_of_merge_all:
  "map_of (merge_all base kvs) k =
     (case map_of (rev kvs) k of Some v \<Rightarrow> Some v | None \<Rightarrow> map_of base k)"
proof (induction kvs arbitrary: base)
  case Nil
  show ?case by simp
next
  case (Cons kv kvs)
  obtain k' v' where kv: "kv = (k', v')" by (cases kv)
  show ?case
    by (simp add: kv Cons.IH map_of_merge_key map_add_def split: option.splits)
qed

lemma map_of_merge_all_distinct:
  assumes "distinct (map fst kvs)" and "(k, v) \<in> set kvs"
  shows "map_of (merge_all base kvs) k = Some v"
proof -
  from assms have "map_of (rev kvs) k = Some v"
    by (intro map_of_is_SomeI) (simp_all add: rev_map [symmetric])
  then show ?thesis by (simp add: map_of_merge_all)
qed

lemma merge_order_mset:
  "mset (merge_order entries) = mset (filter (\<lambda>e. \<not> is_primary e) entries)"
proof (induction entries)
  case Nil
  show ?case by (simp add: merge_order_def)
next
  case (Cons e es)
  have excl: "is_reserved e \<Longrightarrow> \<not> is_orbs e \<and> \<not> is_primary e" "is_orbs e \<Longrightarrow> \<not> is_primary e"
    by (auto simp: is_reserved_def is_orbs_def is_primary_def reserved_names_def)
  from Cons show ?case
    using excl by (auto simp: merge_order_def reserved_names_def is_reserved_def)
qed

lemma merge_order_memberI:
  assumes "e \<in> set entries" and "\<not> is_primary e"
  shows "e \<in> set (merge_order entries)"
proof -
  from assms have "e \<in># mset (filter (\<lambda>e. \<not> is_primary e) entries)" by simp
  then have "e \<in># mset (merge_order entries)" by (simp only: merge_order_mset)
  then show ?thesis by simp
qed

lemma distinct_keys_merge_order:
  assumes "distinct (map entry_key entries)"
  shows "distinct (map entry_key (merge_order entries))"
proof -
  have "mset (map entry_key (merge_order entries))
      = mset (map entry_key (filter (\<lambda>e. \<not> is_primary e) entries))"
    by (simp add: merge_order_mset)
  moreover have "distinct (map entry_key (filter (\<lambda>e. \<not> is_primary e) entries))"
    using assms by (rule distinct_map_filter)
  ultimately show ?thesis by (metis mset_eq_imp_distinct_iff)
qed

lemma pack_entry_key: "pack_entry parse dir e = Inr kv \<Longrightarrow> fst kv = entry_key e"
  by (auto simp: pack_entry_def entry_key_def is_reserved_def is_orbs_def
      split: if_splits sum.splits)

lemma orb_entry_key: "orb_entry parse dir e = Inr kv \<Longrightarrow> fst kv = entry_key e"
  by (auto simp: orb_entry_def entry_key_def split: if_splits sum.splits)

lemma section_entry_key: "section_entry parse dir e = Inr kv \<Longrightarrow> fst kv = entry_key e"
  by (auto simp: section_entry_def entry_key_def split: if_splits sum.splits)

lemma list_all2_keys:
  assumes "list_all2 (\<lambda>e kv. f e = Inr kv) es kvs"
    and "\<And>e kv. f e = Inr kv \<Longrightarrow> fst kv = entry_key e"
  shows "map fst kvs = map entry_key es"
  using assms(1) by (induction rule: list_all2_induct) (simp_all add: assms(2))

lemma lookup_packed:
  assumes all: "list_all2 (\<lambda>e kv. f e = Inr kv) es kvs"
    and key: "\<And>e kv. f e = Inr kv \<Longrightarrow> fst kv = entry_key e"
    and dist: "distinct (map entry_key es)"
    and mem: "e \<in> set es"
  shows "\<exists>v. f e = Inr (entry_key e, v) \<and> map_of kvs (entry_key e) = Some v
            \<and> map_of (merge_all base kvs) (entry_key e) = Some v"
proof -
  from list_all2_member [OF all mem] obtain kv where kv: "kv \<in> set kvs" "f e = Inr kv" by blast
  with key have fst: "fst kv = entry_key e" by blast
  have d: "distinct (map fst kvs)" using list_all2_keys [OF all key] dist by simp
  from kv(1) fst have in_kvs: "(entry_key e, snd kv) \<in> set kvs" by (metis prod.collapse)
  from kv(2) fst have "f e = Inr (entry_key e, snd kv)" by (metis prod.collapse)
  moreover have "map_of kvs (entry_key e) = Some (snd kv)"
    using d in_kvs by (rule map_of_is_SomeI)
  moreover have "map_of (merge_all base kvs) (entry_key e) = Some (snd kv)"
    using d in_kvs by (rule map_of_merge_all_distinct)
  ultimately show ?thesis by blast
qed

lemma reserved_not_hidden: "name \<in> set reserved_names \<Longrightarrow> \<not> hidden name"
  by (auto simp: reserved_names_def hidden_def)

lemma ReservedInterpreter_lookup:
  assumes ok: "ReservedInterpreter parse dir (Dir files) = Inr packed"
    and leaf: "(name, leaf) \<in> set files" "\<not> hidden name"
  shows "\<exists>m document. packed = Mapping m
           \<and> kind leaf = File
           \<and> LeafLoader parse (join_path dir name) leaf = Inr document
           \<and> map_of m (strip_ext name) = Some document"
proof -
  from ok obtain entries where scan: "scan_directory dir (Dir files) = Inr entries"
    by (auto simp: ReservedInterpreter_def split: sum.splits)
  with ok obtain m where m: "traverse (section_entry parse dir) entries = Inr m"
    and packed: "packed = Mapping m"
    by (auto simp: ReservedInterpreter_def split: sum.splits)
  from scan have dist: "distinct (map entry_key entries)"
    by (rule scan_directory_Inr)
  from scanned_member [OF scan, of "(name, leaf)"] leaf
  have mem: "(name, leaf) \<in> set entries" by simp
  from lookup_packed [OF traverse_Inr_D [OF m] section_entry_key [of parse dir] dist mem,
      where base = "[]"]
  obtain v where v: "section_entry parse dir (name, leaf) = Inr (entry_key (name, leaf), v)"
    "map_of m (entry_key (name, leaf)) = Some v" by blast
  from v(1) have is_file: "kind leaf = File"
    by (cases "kind leaf") (simp_all add: section_entry_def)
  with v have "LeafLoader parse (join_path dir name) leaf = Inr v"
    "map_of m (strip_ext name) = Some v"
    by (auto simp: section_entry_def entry_key_def split: sum.splits)
  with packed is_file show ?thesis by blast
qed

section \<open>Key collisions\<close>











section \<open>Listing order\<close>














section \<open>Override policy\<close>

text \<open>
  C3. Let packing a root succeed with a Mapping. For every reserved directory among
  its children (\<open>commands\<close>, \<open>jobs\<close> or \<open>executors\<close>) and every visible file in it, the
  packed output has, under the section and under the file's key, the parsed content of
  that file: whatever the primary document defines inline under the same key is
  overwritten.
\<close>

theorem file_overrides_inline:
  assumes ok: "TreeBuilder parse dir (Dir children) = Inr (source, Mapping packed)"
    and sec: "(section_name, Dir files) \<in> set children" "section_name \<in> set reserved_names"
    and leaf: "(name, RegularFile content) \<in> set files" "\<not> hidden name"
  shows "\<exists>m document.
           LeafLoader parse (join_path (join_path dir section_name) name) (RegularFile content)
             = Inr document
         \<and> map_of packed section_name = Some (Mapping m)
         \<and> map_of m (strip_ext name) = Some document"
proof -
  let ?e = "(section_name, Dir files)"
  from ok obtain entries primary base kvs where
    scan: "scan_directory dir (Dir children) = Inr entries"
    and all: "list_all2 (\<lambda>e kv. pack_entry parse dir e = Inr kv) (merge_order entries) kvs"
    and packed: "packed = merge_all base kvs"
    by (rule TreeBuilder_Mapping)
  from scan have "distinct (map entry_key entries)" by (rule scan_directory_Inr)
  then have dist: "distinct (map entry_key (merge_order entries))"
    by (rule distinct_keys_merge_order)
  have reserved: "is_reserved ?e" using sec(2) by (simp add: is_reserved_def)
  then have "\<not> is_primary ?e" by (simp add: is_reserved_def is_primary_def)
  moreover have "?e \<in> set entries"
    using scanned_member [OF scan, of ?e] sec reserved_not_hidden by simp
  ultimately have mem: "?e \<in> set (merge_order entries)" by (rule merge_order_memberI [rotated])
  from lookup_packed [OF all pack_entry_key [of parse dir] dist mem, where base = base]
  obtain v where v: "pack_entry parse dir ?e = Inr (entry_key ?e, v)"
    "map_of (merge_all base kvs) (entry_key ?e) = Some v" by blast
  have key: "entry_key ?e = section_name" by (simp add: entry_key_def)
  from v(1) reserved
  have "ReservedInterpreter parse (join_path dir section_name) (Dir files) = Inr v"
    by (auto simp: pack_entry_def split: sum.splits)
  from ReservedInterpreter_lookup [OF this leaf] v(2) key packed
  show ?thesis by auto
qed

text \<open>
  The theorem at a root whose \<^verbatim>\<open>config.yml\<close> defines \<open>jobs.build\<close> inline and whose
  \<^verbatim>\<open>jobs/build.yml\<close> defines it again: the packed \<open>jobs.build\<close> is the file's.
\<close>

theorem file_overrides_inline_witness:
  "example_parse ''jobs: {build: {docker: inline}}''
     = Inr (Mapping [(''jobs'', Mapping [(''build'', Mapping [(''docker'', Scalar ''inline'')])])])
   \<and> TreeBuilder example_parse ''root'' (Dir override_root)
     = Inr (''root'', Mapping [(''jobs'', Mapping [(''build'', Mapping [(''docker'', Scalar ''file'')])])])
   \<and> (\<exists>m document.
         LeafLoader example_parse (join_path (join_path ''root'' ''jobs'') ''build.yml'')
           (RegularFile ''docker: file'') = Inr document
       \<and> document = Mapping [(''docker'', Scalar ''file'')]
       \<and> map_of [(''jobs'', Mapping [(''build'', Mapping [(''docker'', Scalar ''file'')])])] ''jobs''
           = Some (Mapping m)
       \<and> map_of m (strip_ext ''build.yml'') = Some document)"
proof -
  have inline: "example_parse ''jobs: {build: {docker: inline}}''
     = Inr (Mapping [(''jobs'', Mapping [(''build'', Mapping [(''docker'', Scalar ''inline'')])])])"
    by code_simp
  have packed: "TreeBuilder example_parse ''root'' (Dir override_root)
     = Inr (''root'', Mapping [(''jobs'', Mapping [(''build'', Mapping [(''docker'', Scalar ''file'')])])])"
    by code_simp
  have jobs: "(''jobs'', Dir [(''build.yml'', RegularFile ''docker: file'')]) \<in> set override_root"
    "''jobs'' \<in> set reserved_names"
    by (simp_all add: override_root_def reserved_names_def)
  have build: "(''build.yml'', RegularFile ''docker: file'')
      \<in> set [(''build.yml'', RegularFile ''docker: file'')]" "\<not> hidden ''build.yml''"
    by (simp_all add: hidden_def)
  have loaded: "LeafLoader example_parse (join_path (join_path ''root'' ''jobs'') ''build.yml'')
           (RegularFile ''docker: file'') = Inr (Mapping [(''docker'', Scalar ''file'')])"
    by code_simp
  from file_overrides_inline [OF packed jobs build] loaded
  have "\<exists>m document.
         LeafLoader example_parse (join_path (join_path ''root'' ''jobs'') ''build.yml'')
           (RegularFile ''docker: file'') = Inr document
       \<and> document = Mapping [(''docker'', Scalar ''file'')]
       \<and> map_of [(''jobs'', Mapping [(''build'', Mapping [(''docker'', Scalar ''file'')])])] ''jobs''
           = Some (Mapping m)
       \<and> map_of m (strip_ext ''build.yml'') = Some document"
    by auto
  with inline packed show ?thesis by (intro conjI)
qed

section \<open>Local orbs\<close>

text \<open>
  C4. Let packing a root succeed with a Mapping, and let the root have an \<open>orbs\<close>
  directory. The packed output has a Mapping under \<open>orbs\<close>; for every visible
  subdirectory \<open>orbs/<name>\<close> that Mapping has, under \<open>name\<close>, the result of packing the
  subdirectory with the Tree Builder; for every visible file of \<open>orbs\<close> it has, under the
  file's base name without extension, the Leaf Loader output of the file.
\<close>

theorem local_orbs_packed:
  assumes ok: "TreeBuilder parse dir (Dir children) = Inr (source, Mapping packed)"
    and orbs: "(''orbs'', Dir orbs) \<in> set children"
    and child: "(name, sub) \<in> set orbs" "\<not> hidden name"
  shows "\<exists>m. map_of packed ''orbs'' = Some (Mapping m)
         \<and> (kind sub = Directory \<longrightarrow>
              (\<exists>orb. TreeBuilder parse (join_path (join_path dir ''orbs'') name) sub = Inr orb
                 \<and> map_of m name = Some (snd orb)))
         \<and> (kind sub = File \<longrightarrow>
              (\<exists>document. LeafLoader parse (join_path (join_path dir ''orbs'') name) sub = Inr document
                 \<and> map_of m (strip_ext name) = Some document))"
proof -
  let ?e = "(''orbs'', Dir orbs)"
  let ?dir = "join_path dir ''orbs''"
  from ok obtain entries primary base kvs where
    scan: "scan_directory dir (Dir children) = Inr entries"
    and all: "list_all2 (\<lambda>e kv. pack_entry parse dir e = Inr kv) (merge_order entries) kvs"
    and packed: "packed = merge_all base kvs"
    by (rule TreeBuilder_Mapping)
  from scan have "distinct (map entry_key entries)" by (rule scan_directory_Inr)
  then have dist: "distinct (map entry_key (merge_order entries))"
    by (rule distinct_keys_merge_order)
  have is_orbs: "is_orbs ?e" "\<not> is_reserved ?e" "\<not> is_primary ?e"
    by (simp_all add: is_orbs_def is_reserved_def is_primary_def reserved_names_def)
  have "?e \<in> set entries"
    using scanned_member [OF scan, of ?e] orbs by (simp add: hidden_def)
  then have mem: "?e \<in> set (merge_order entries)"
    using is_orbs(3) by (rule merge_order_memberI)
  from lookup_packed [OF all pack_entry_key [of parse dir] dist mem, where base = base]
  obtain v where v: "pack_entry parse dir ?e = Inr (entry_key ?e, v)"
    "map_of (merge_all base kvs) (entry_key ?e) = Some v" by blast
  have key: "entry_key ?e = ''orbs''" by (simp add: entry_key_def)
  from v(1) is_orbs have inl: "OrbInliner parse ?dir (Dir orbs) = Inr v"
    by (auto simp: pack_entry_def split: sum.splits)
  then obtain entries' where scan': "scan_directory ?dir (Dir orbs) = Inr entries'"
    by (subst (asm) OrbInliner_unfold) (auto split: sum.splits)
  with inl obtain m where m: "traverse (orb_entry parse ?dir) entries' = Inr m"
    and vm: "v = Mapping m"
    by (subst (asm) OrbInliner_unfold) (auto split: sum.splits)
  from scan' have dist': "distinct (map entry_key entries')" by (rule scan_directory_Inr)
  from scanned_member [OF scan', of "(name, sub)"] child
  have mem': "(name, sub) \<in> set entries'" by simp
  from lookup_packed [OF traverse_Inr_D [OF m] orb_entry_key [of parse ?dir] dist' mem',
      where base = "[]"]
  obtain w where w: "orb_entry parse ?dir (name, sub) = Inr (entry_key (name, sub), w)"
    "map_of m (entry_key (name, sub)) = Some w" by blast
  have "kind sub = Directory \<longrightarrow>
          (\<exists>orb. TreeBuilder parse (join_path ?dir name) sub = Inr orb \<and> map_of m name = Some (snd orb))"
    using w by (auto simp: orb_entry_def entry_key_def split: sum.splits)
  moreover have "kind sub = File \<longrightarrow>
          (\<exists>document. LeafLoader parse (join_path ?dir name) sub = Inr document
             \<and> map_of m (strip_ext name) = Some document)"
    using w by (auto simp: orb_entry_def entry_key_def split: sum.splits)
  moreover have "map_of packed ''orbs'' = Some (Mapping m)"
    using v(2) key packed vm by simp
  ultimately show ?thesis by blast
qed

text \<open>
  The theorem at \<^verbatim>\<open>orbs/foo/config.yml\<close> (\<open>version: 2.1\<close>) with
  \<^verbatim>\<open>orbs/foo/commands/build.yml\<close>: the output has \<open>orbs.foo.version = 2.1\<close> and
  \<open>orbs.foo.commands.build\<close> is the file's parsed content.
\<close>

theorem local_orbs_packed_witness:
  "TreeBuilder example_parse ''root'' (Dir orbs_root)
     = Inr (''root'', Mapping [(''orbs'', Mapping
          [(''foo'', Mapping [(''version'', Scalar ''2.1''),
             (''commands'', Mapping [(''build'', Mapping [(''steps'', Sequence [Scalar ''checkout''])])])]),
           (''pin'', Mapping [(''version'', Scalar ''2.1'')])])])
   \<and> example_parse ''steps: [checkout]'' = Inr (Mapping [(''steps'', Sequence [Scalar ''checkout''])])
   \<and> (\<exists>m orb.
         map_of [(''orbs'', Mapping
          [(''foo'', Mapping [(''version'', Scalar ''2.1''),
             (''commands'', Mapping [(''build'', Mapping [(''steps'', Sequence [Scalar ''checkout''])])])]),
           (''pin'', Mapping [(''version'', Scalar ''2.1'')])])] ''orbs'' = Some (Mapping m)
       \<and> TreeBuilder example_parse (join_path (join_path ''root'' ''orbs'') ''foo'') foo_orb = Inr orb
       \<and> map_of m ''foo'' = Some (snd orb))"
proof -
  have packed: "TreeBuilder example_parse ''root'' (Dir orbs_root)
     = Inr (''root'', Mapping [(''orbs'', Mapping
          [(''foo'', Mapping [(''version'', Scalar ''2.1''),
             (''commands'', Mapping [(''build'', Mapping [(''steps'', Sequence [Scalar ''checkout''])])])]),
           (''pin'', Mapping [(''version'', Scalar ''2.1'')])])])"
    by code_simp
  have parsed: "example_parse ''steps: [checkout]''
      = Inr (Mapping [(''steps'', Sequence [Scalar ''checkout''])])"
    by code_simp
  have orbs: "(''orbs'', Dir orbs_dir) \<in> set orbs_root"
    by (simp add: orbs_root_def)
  have foo: "(''foo'', foo_orb) \<in> set orbs_dir" "\<not> hidden ''foo''"
    by (simp_all add: orbs_dir_def hidden_def)
  have directory: "kind foo_orb = Directory"
    by (simp add: foo_orb_def)
  from local_orbs_packed [OF packed orbs foo] directory
  have "\<exists>m orb.
         map_of [(''orbs'', Mapping
          [(''foo'', Mapping [(''version'', Scalar ''2.1''),
             (''commands'', Mapping [(''build'', Mapping [(''steps'', Sequence [Scalar ''checkout''])])])]),
           (''pin'', Mapping [(''version'', Scalar ''2.1'')])])] ''orbs'' = Some (Mapping m)
       \<and> TreeBuilder example_parse (join_path (join_path ''root'' ''orbs'') ''foo'') foo_orb = Inr orb
       \<and> map_of m ''foo'' = Some (snd orb)"
    by blast
  with packed parsed show ?thesis by (intro conjI)
qed

section \<open>Determinism\<close>

lemma kind_canonical: "kind (canonical node) = kind node"
  by (cases node) simp_all

lemma LeafLoader_canonical: "LeafLoader parse p (canonical node) = LeafLoader parse p node"
  by (cases node) (simp_all add: LeafLoader_def)

lemma insort_key_map_snd:
  "insort_key fst (fst e, g (snd e)) (map (\<lambda>e. (fst e, g (snd e))) xs)
     = map (\<lambda>e. (fst e, g (snd e))) (insort_key fst e xs)"
  by (induction xs) simp_all

lemma sort_key_map_snd:
  "sort_key fst (map (\<lambda>e. (fst e, g (snd e))) xs) = map (\<lambda>e. (fst e, g (snd e))) (sort_key fst xs)"
  by (induction xs) (simp_all add: insort_key_map_snd)

lemma visible_map_snd:
  "visible (map (\<lambda>e. (fst e, g (snd e))) xs) = map (\<lambda>e. (fst e, g (snd e))) (visible xs)"
  by (simp add: visible_def filter_map comp_def)

lemma visible_sort_key: "visible (sort_key fst xs) = sort_key fst (visible xs)"
  by (simp add: visible_def filter_sort)

lemma sort_key_twice: "sort_key f (sort_key f xs) = sort_key f xs"
  by (simp add: sort_key_id_if_sorted)

lemma entry_key_canonical: "entry_key (fst e, canonical (snd e)) = entry_key e"
  by (simp add: entry_key_def kind_canonical)

lemma find_key_canonical:
  "find (\<lambda>e'. entry_key e' = k) (map (\<lambda>e. (fst e, canonical (snd e))) es)
     = map_option (\<lambda>e. (fst e, canonical (snd e))) (find (\<lambda>e'. entry_key e' = k) es)"
  by (induction es) (simp_all add: entry_key_canonical)

lemma find_collision_canonical:
  "find_collision dir (map (\<lambda>e. (fst e, canonical (snd e))) es) = find_collision dir es"
proof (induction es)
  case Nil
  show ?case by simp
next
  case (Cons e es)
  show ?case
    by (cases "find (\<lambda>e'. entry_key e' = entry_key e) es")
      (simp_all add: find_key_canonical entry_key_canonical Cons.IH)
qed

lemma scan_directory_canonical:
  "scan_directory dir (canonical node) =
     (case scan_directory dir node of
        Inl err \<Rightarrow> Inl err
      | Inr entries \<Rightarrow> Inr (map (\<lambda>e. (fst e, canonical (snd e))) entries))"
proof (cases node)
  case (Dir children)
  have "sort_key fst (visible (sort_key fst (map (\<lambda>e. (fst e, canonical (snd e))) children)))
      = map (\<lambda>e. (fst e, canonical (snd e))) (sort_key fst (visible children))"
    by (simp add: visible_sort_key sort_key_twice visible_map_snd sort_key_map_snd)
  then show ?thesis
    by (simp add: Dir scan_directory_Dir find_collision_canonical split: option.splits)
qed (simp_all add: scan_directory_def PathScanner_def)

lemma section_entry_canonical:
  "section_entry parse dir (fst e, canonical (snd e)) = section_entry parse dir e"
  by (simp add: section_entry_def kind_canonical LeafLoader_canonical cong: sum.case_cong)

lemma ReservedInterpreter_canonical:
  "ReservedInterpreter parse dir (canonical node) = ReservedInterpreter parse dir node"
  by (simp add: ReservedInterpreter_def scan_directory_canonical traverse_map
      section_entry_canonical split: sum.splits)

lemma is_primary_canonical: "is_primary (fst e, canonical (snd e)) = is_primary e"
  by (simp add: is_primary_def kind_canonical)

lemma is_reserved_canonical: "is_reserved (fst e, canonical (snd e)) = is_reserved e"
  by (simp add: is_reserved_def kind_canonical)

lemma is_orbs_canonical: "is_orbs (fst e, canonical (snd e)) = is_orbs e"
  by (simp add: is_orbs_def kind_canonical)

lemma load_primary_canonical:
  "load_primary parse dir (map (\<lambda>e. (fst e, canonical (snd e))) es) = load_primary parse dir es"
proof -
  have "find is_primary (map (\<lambda>e. (fst e, canonical (snd e))) es)
      = map_option (\<lambda>e. (fst e, canonical (snd e))) (find is_primary es)"
    by (induction es) (simp_all add: is_primary_canonical)
  then show ?thesis
    by (cases "find is_primary es")
      (simp_all add: load_primary_def LeafLoader_canonical cong: sum.case_cong)
qed

lemma merge_order_canonical:
  "merge_order (map (\<lambda>e. (fst e, canonical (snd e))) es)
     = map (\<lambda>e. (fst e, canonical (snd e))) (merge_order es)"
  by (simp add: merge_order_def filter_map comp_def is_primary_canonical is_reserved_canonical
      is_orbs_canonical map_concat)

lemma canonical_same_result:
  "TreeBuilder parse dir (canonical node) = TreeBuilder parse dir node
   \<and> OrbInliner parse dir (canonical node) = OrbInliner parse dir node"
proof (induction node arbitrary: dir rule: measure_induct_rule [where f = size])
  case (less node)
  show ?case
  proof (cases "scan_directory dir node")
    case (Inl err)
    then have "scan_directory dir (canonical node) = Inl err"
      by (simp add: scan_directory_canonical)
    with Inl show ?thesis
      by (simp add: TreeBuilder_scan_error OrbInliner_scan_error)
  next
    case (Inr entries)
    let ?h = "\<lambda>e. (fst e, canonical (snd e))"
    from Inr have scan': "scan_directory dir (canonical node) = Inr (map ?h entries)"
      by (simp add: scan_directory_canonical)
    have child: "TreeBuilder parse d (canonical (snd e)) = TreeBuilder parse d (snd e)"
      "OrbInliner parse d (canonical (snd e)) = OrbInliner parse d (snd e)"
      if "e \<in> set entries" for e d
      using less.IH [OF scan_directory_size [OF Inr that]] by simp_all
    have pack: "pack_entry parse dir (?h e) = pack_entry parse dir e" if "e \<in> set entries" for e
      by (simp add: pack_entry_def is_reserved_canonical is_orbs_canonical kind_canonical
          ReservedInterpreter_canonical LeafLoader_canonical child [OF that]
          cong: sum.case_cong)
    have orb: "orb_entry parse dir (?h e) = orb_entry parse dir e" if "e \<in> set entries" for e
      by (simp add: orb_entry_def kind_canonical LeafLoader_canonical child [OF that]
          cong: sum.case_cong)
    have "traverse (pack_entry parse dir) (merge_order (map ?h entries))
        = traverse (pack_entry parse dir) (merge_order entries)"
      unfolding merge_order_canonical traverse_map
      by (rule traverse_cong) (simp_all add: pack merge_order_member)
    moreover have "traverse (orb_entry parse dir) (map ?h entries)
        = traverse (orb_entry parse dir) entries"
      unfolding traverse_map by (rule traverse_cong) (simp_all add: orb)
    ultimately show ?thesis
      by (simp add: TreeBuilder_unfold [of parse dir] OrbInliner_unfold [of parse dir]
          Inr scan' load_primary_canonical cong: sum.case_cong)
  qed
qed

text \<open>
  C7. Packing is a function of the directory tree alone. Two runs on a root that holds
  the same tree, each run seeing the entries of every directory in whatever order the
  operating system iterates (the two trees have one canonical form; an unmodified tree
  is the case \<open>tree' = tree\<close>), return the same bytes or the same error, and
  \<open>packConfig\<close> ends the same way with the same text on standard output.
\<close>

theorem pack_deterministic:
  assumes "fs rootPath = Some tree" and "fs' rootPath = Some tree'"
    and "canonical tree = canonical tree'"
  shows "Pack parse render fs rootPath = Pack parse render fs' rootPath
       \<and> packConfig (filetree_NewTree parse fs) (yaml_Marshal render) [rootPath] stdout
         = packConfig (filetree_NewTree parse fs') (yaml_Marshal render) [rootPath] stdout"
proof -
  have "TreeBuilder parse rootPath tree = TreeBuilder parse rootPath (canonical tree)"
    by (simp add: canonical_same_result)
  also have "\<dots> = TreeBuilder parse rootPath tree'"
    by (simp add: assms(3) canonical_same_result)
  finally have "filetree_NewTree parse fs rootPath = filetree_NewTree parse fs' rootPath"
    by (simp add: filetree_NewTree_def assms(1,2))
  then show ?thesis by (simp add: Pack_def packConfig_def)
qed

text \<open>The theorem at one tree iterated in two orders.\<close>

theorem pack_deterministic_witness:
  "first_fs ''root'' = Some first_listing
   \<and> second_fs ''root'' = Some second_listing
   \<and> first_listing \<noteq> second_listing
   \<and> canonical first_listing = canonical second_listing
   \<and> Pack example_parse example_render first_fs ''root''
       = Inr ''{version: 2.1, commands: {a: {steps: [checkout, ], }, b: {docker: file, }, }, }''
   \<and> Pack example_parse example_render second_fs ''root''
       = Inr ''{version: 2.1, commands: {a: {steps: [checkout, ], }, b: {docker: file, }, }, }''"
proof -
  have first: "first_fs ''root'' = Some first_listing"
    and second: "second_fs ''root'' = Some second_listing"
    by (simp_all add: first_fs_def second_fs_def)
  have differ: "first_listing \<noteq> second_listing"
    by (simp add: first_listing_def second_listing_def)
  have same: "canonical first_listing = canonical second_listing"
    by code_simp
  have printed: "Pack example_parse example_render first_fs ''root''
       = Inr ''{version: 2.1, commands: {a: {steps: [checkout, ], }, b: {docker: file, }, }, }''"
    by code_simp
  from pack_deterministic [where fs = first_fs and fs' = second_fs and rootPath = "''root''"
      and parse = example_parse and render = example_render, OF first second same] printed
  have "Pack example_parse example_render second_fs ''root''
       = Inr ''{version: 2.1, commands: {a: {steps: [checkout, ], }, b: {docker: file, }, }, }''"
    by simp
  with first second differ same printed show ?thesis by (intro conjI)
qed

section \<open>The root must be a mapping\<close>

text \<open>
  C1. For every root path whose packed result is not a Mapping, \<open>Pack\<close> fails with the
  \<open>StructureError\<close> of a non-Mapping root, which names the source path of the packed
  result and the kind encountered; and \<open>packConfig\<close> returns that error (wrapped by the
  marshalling stage) and writes nothing to standard output.
\<close>

theorem non_mapping_root_fails:
  assumes "filetree_NewTree parse fs rootPath = Inr (source, document)"
    and "kind_of document \<noteq> MappingKind"
  shows "Pack parse render fs rootPath
           = Inl (StructureError (NonMappingRoot source (kind_of document)))
       \<and> packConfig (filetree_NewTree parse fs) (yaml_Marshal render) (rootPath # rest) stdout
           = (Returned_error
                (Wrap (StructureError (NonMappingRoot source (kind_of document)))
                   ''Failed trying to marshal the tree to YAML ''),
              stdout)"
proof -
  from assms(2) have "MergeValidator (source, document)
      = Inl (StructureError (NonMappingRoot source (kind_of document)))"
    by (cases document) (simp_all add: MergeValidator_def)
  then have "yaml_Marshal render (source, document)
      = Inl (StructureError (NonMappingRoot source (kind_of document)))"
    by (simp add: yaml_Marshal_def)
  with assms(1) show ?thesis by (simp add: Pack_def packConfig_def)
qed

text \<open>
  The theorem at the root of the test "a config which is a list and not a map": the
  directory \<^verbatim>\<open>myorb\<close> with the file \<^verbatim>\<open>config.yaml\<close> holding \<^verbatim>\<open>[]\<close>.
\<close>

theorem non_mapping_root_fails_witness:
  "filetree_NewTree example_parse list_fs ''myorb'' = Inr (''myorb/config.yaml'', Sequence [])
   \<and> kind_of (Sequence []) \<noteq> MappingKind
   \<and> Pack example_parse example_render list_fs ''myorb''
       = Inl (StructureError (NonMappingRoot ''myorb/config.yaml'' SequenceKind))
   \<and> packConfig (filetree_NewTree example_parse list_fs) (yaml_Marshal example_render) [''myorb''] []
       = (Returned_error
            (Wrap (StructureError (NonMappingRoot ''myorb/config.yaml'' SequenceKind))
               ''Failed trying to marshal the tree to YAML ''),
          [])"
proof -
  have built: "filetree_NewTree example_parse list_fs ''myorb'' = Inr (''myorb/config.yaml'', Sequence [])"
    by code_simp
  have list: "kind_of (Sequence []) \<noteq> MappingKind"
    by simp
  from non_mapping_root_fails [where fs = list_fs and rootPath = "''myorb''"
      and parse = example_parse and render = example_render and rest = "[]" and stdout = "[]",
      OF built list] built list
  show ?thesis by simp
qed

end
